theory Spec2Isabelle
  imports Complex_Main
begin

section \<open>Cartesian velocity controller (velocity\_pid.cpp)\<close>

text \<open>
  The controller of \<^verbatim>\<open>src/2 Cartesian Control/velocity_pid.cpp\<close> as state-passing
  functions. A C++ \<^verbatim>\<open>double\<close> is modelled as a \<^typ>\<open>real\<close>: every number is
  finite and arithmetic is exact (no rounding, no infinities, no NaN). A
  \<^verbatim>\<open>ros::Time\<close> and a \<^verbatim>\<open>ros::Duration\<close> are modelled as seconds in
  \<^typ>\<open>real\<close>, so \<^verbatim>\<open>ros::Duration(1.0/publish_rate_)\<close> is \<open>1 / publish_rate\<close>
  without the rounding to nanoseconds and without the range check of the ROS time
  classes.
\<close>

subsection \<open>Data\<close>

type_synonym ros_time = real
type_synonym ros_duration = real

text \<open>\<^verbatim>\<open>KDL::Vector\<close>: three components, read and written by index 0, 1, 2.\<close>

record vector =
  data0 :: real
  data1 :: real
  data2 :: real

definition Vector_Zero :: vector where
  "Vector_Zero = \<lparr>data0 = 0, data1 = 0, data2 = 0\<rparr>"

text \<open>\<^verbatim>\<open>KDL::Twist\<close>: translational velocity \<open>vel\<close> and rotational velocity \<open>rot\<close>.\<close>

record twist =
  vel :: vector
  rot :: vector

definition Twist_Zero :: twist where
  "Twist_Zero = \<lparr>vel = Vector_Zero, rot = Vector_Zero\<rparr>"

text \<open>\<^verbatim>\<open>geometry_msgs::Twist\<close>, the inbound command message.\<close>

record vector3 =
  msg_x :: real
  msg_y :: real
  msg_z :: real

record twist_msg =
  linear :: vector3
  angular :: vector3

text \<open>
  \<^verbatim>\<open>KDL::Frame\<close> (origin and rotation matrix) and \<^verbatim>\<open>KDL::FrameVel\<close> (the same
  with their velocities). \<^verbatim>\<open>FrameVel::GetTwist()\<close> pairs the velocity of the origin
  with the angular velocity.
\<close>

record frame =
  frame_p :: vector
  frame_M :: "real list"

record framevel =
  framevel_p :: vector
  framevel_v :: vector
  framevel_R :: "real list"
  framevel_w :: vector

definition GetTwist :: "framevel \<Rightarrow> twist" where
  "GetTwist fv = \<lparr>vel = framevel_v fv, rot = framevel_w fv\<rparr>"

text \<open>
  \<^verbatim>\<open>nav_msgs::Odometry\<close>, the telemetry message: the fields \<open>update\<close> fills. The
  pose is kept as the frame it is converted from (the encoding of the rotation as a
  quaternion is done by \<^verbatim>\<open>tf::poseKDLToMsg\<close>, outside this file).
\<close>

record odometry =
  stamp :: ros_time
  pose :: frame
  odom_twist :: twist

text \<open>
  A joint handle of the hardware interface: the sensed position and velocity, and the
  command slot that \<^verbatim>\<open>setCommand\<close> writes.
\<close>

record joint_handle =
  position :: real
  velocity :: real
  command :: real

definition getPosition :: "joint_handle \<Rightarrow> real" where
  "getPosition h = position h"

definition getVelocity :: "joint_handle \<Rightarrow> real" where
  "getVelocity h = velocity h"

definition setCommand :: "real \<Rightarrow> joint_handle \<Rightarrow> joint_handle" where
  "setCommand c h = h\<lparr>command := c\<rparr>"

text \<open>
  The two concrete controllers: \<^verbatim>\<open>CartesianVelocityControllerPID\<close> on a velocity
  joint interface and \<^verbatim>\<open>CartesianVelocityControllerPIDSim\<close> on a position joint
  interface. They differ in \<^verbatim>\<open>writeVelocityCommands\<close> only.
\<close>

datatype variant = PID | PIDSim

text \<open>
  The calls the control cycle makes on the realtime publisher, in order:
  \<^verbatim>\<open>trylock()\<close> with its result, and \<^verbatim>\<open>unlockAndPublish()\<close> with the message
  handed over.
\<close>

datatype pub_call = TryLock bool | UnlockAndPublish odometry

text \<open>
  The controller object. \<open>kdl_chain_joints\<close> is
  \<^verbatim>\<open>kdl_chain_.getNrOfJoints()\<close>; \<open>x_pose\<close> is the member \<^verbatim>\<open>x_\<close>;
  \<open>realtime_pub_msg\<close> is \<^verbatim>\<open>realtime_pub_->msg_\<close> and \<open>realtime_pub_calls\<close> the
  record of the calls made on \<^verbatim>\<open>realtime_pub_\<close> so far.
\<close>

record controller =
  writer :: variant
  kdl_chain_joints :: nat
  joint_handles :: "joint_handle list"
  joint_msr_q :: "real list"
  joint_msr_qdot :: "real list"
  q_dt_cmd :: "real list"
  x_dt_des :: twist
  x_pose :: frame
  x_dot :: framevel
  publish_rate :: real
  last_publish_time :: ros_time
  realtime_pub_msg :: odometry
  realtime_pub_calls :: "pub_call list"

text \<open>
  The three KDL solvers (\<^verbatim>\<open>ik_vel_solver_\<close>, \<^verbatim>\<open>fk_vel_solver_\<close>,
  \<^verbatim>\<open>fk_pos_solver_\<close>) belong to the KDL library, not to this repository. Each is a
  parameter: a function from its inputs and the previous content of its output argument
  to the returned status code and the new content of the output argument.
\<close>

record kdl_solvers =
  CartToJnt :: "real list \<Rightarrow> twist \<Rightarrow> real list \<Rightarrow> int \<times> real list"
  JntToCart_vel :: "real list \<Rightarrow> real list \<Rightarrow> framevel \<Rightarrow> int \<times> framevel"
  JntToCart_pos :: "real list \<Rightarrow> frame \<Rightarrow> int \<times> frame"

text \<open>
  Indexing a \<^verbatim>\<open>KDL::JntArray\<close> or the handle vector outside its size is an
  assertion failure (or undefined behaviour); the model stops with an error there.
\<close>

datatype error = IndexOutOfRange

definition and_then :: "error + 'a \<Rightarrow> ('a \<Rightarrow> error + 'b) \<Rightarrow> error + 'b" where
  "and_then r f = (case r of Inl e \<Rightarrow> Inl e | Inr a \<Rightarrow> f a)"

text \<open>\<^verbatim>\<open>for (i = 0; i < n; i++) body\<close>: the body at 0, 1, ..., n - 1 in this order.\<close>

primrec for_upto :: "nat \<Rightarrow> (nat \<Rightarrow> 's \<Rightarrow> error + 's) \<Rightarrow> 's \<Rightarrow> error + 's" where
  "for_upto 0 body s = Inr s"
| "for_upto (Suc n) body s = and_then (for_upto n body s) (body n)"

subsection \<open>starting\<close>

definition starting_body :: "nat \<Rightarrow> controller \<Rightarrow> error + controller" where
  "starting_body i s =
     (if i < length (q_dt_cmd s)
      then Inr (s\<lparr>q_dt_cmd := (q_dt_cmd s)[i := 0]\<rparr>)
      else Inl IndexOutOfRange)"

definition starting :: "ros_time \<Rightarrow> controller \<Rightarrow> error + controller" where
  "starting time s =
     and_then (for_upto (length (joint_handles s)) starting_body s)
       (\<lambda>s1. Inr (s1\<lparr>x_dt_des := Twist_Zero, last_publish_time := time\<rparr>))"

subsection \<open>writeVelocityCommands\<close>

definition write_PID_body :: "nat \<Rightarrow> controller \<Rightarrow> error + controller" where
  "write_PID_body i s =
     (if i < length (joint_handles s) \<and> i < length (q_dt_cmd s)
      then Inr (s\<lparr>joint_handles :=
                  (joint_handles s)[i := setCommand (q_dt_cmd s ! i) (joint_handles s ! i)]\<rparr>)
      else Inl IndexOutOfRange)"

definition writeVelocityCommands_PID :: "ros_duration \<Rightarrow> controller \<Rightarrow> error + controller" where
  "writeVelocityCommands_PID period s =
     for_upto (length (joint_handles s)) write_PID_body s"

definition write_PIDSim_body :: "ros_duration \<Rightarrow> nat \<Rightarrow> controller \<Rightarrow> error + controller" where
  "write_PIDSim_body period i s =
     (if i < length (joint_handles s) \<and> i < length (joint_msr_q s) \<and> i < length (q_dt_cmd s)
      then Inr (s\<lparr>joint_handles :=
                  (joint_handles s)[i := setCommand (joint_msr_q s ! i + q_dt_cmd s ! i * period)
                                           (joint_handles s ! i)]\<rparr>)
      else Inl IndexOutOfRange)"

definition writeVelocityCommands_PIDSim :: "ros_duration \<Rightarrow> controller \<Rightarrow> error + controller" where
  "writeVelocityCommands_PIDSim period s =
     for_upto (length (joint_handles s)) (write_PIDSim_body period) s"

text \<open>The virtual call in \<open>update\<close>, resolved by the class of the object.\<close>

definition writeVelocityCommands :: "ros_duration \<Rightarrow> controller \<Rightarrow> error + controller" where
  "writeVelocityCommands period s =
     (case writer s of
        PID \<Rightarrow> writeVelocityCommands_PID period s
      | PIDSim \<Rightarrow> writeVelocityCommands_PIDSim period s)"

subsection \<open>update\<close>

definition read_body :: "nat \<Rightarrow> controller \<Rightarrow> error + controller" where
  "read_body i s =
     (if i < length (joint_handles s) \<and> i < length (joint_msr_q s) \<and> i < length (joint_msr_qdot s)
      then Inr (s\<lparr>joint_msr_q := (joint_msr_q s)[i := getPosition (joint_handles s ! i)],
                 joint_msr_qdot := (joint_msr_qdot s)[i := getVelocity (joint_handles s ! i)]\<rparr>)
      else Inl IndexOutOfRange)"

definition read_joints :: "controller \<Rightarrow> error + controller" where
  "read_joints s = for_upto (length (joint_handles s)) read_body s"

text \<open>
  The three solver calls. Each returned status is dropped, as the source drops it; the
  output argument takes whatever the solver left in it.
\<close>

definition solve_ik :: "kdl_solvers \<Rightarrow> controller \<Rightarrow> controller" where
  "solve_ik kdl s =
     s\<lparr>q_dt_cmd := snd (CartToJnt kdl (joint_msr_q s) (x_dt_des s) (q_dt_cmd s))\<rparr>"

definition solve_fk :: "kdl_solvers \<Rightarrow> controller \<Rightarrow> controller" where
  "solve_fk kdl s =
     (let s1 = s\<lparr>x_dot := snd (JntToCart_vel kdl (joint_msr_q s) (joint_msr_qdot s) (x_dot s))\<rparr>
      in s1\<lparr>x_pose := snd (JntToCart_pos kdl (joint_msr_q s1) (x_pose s1))\<rparr>)"

text \<open>The condition of the \<^verbatim>\<open>if\<close> that limits the rate of publishing.\<close>

definition publish_due :: "ros_time \<Rightarrow> controller \<Rightarrow> bool" where
  "publish_due time s \<longleftrightarrow>
     publish_rate s > 0 \<and> last_publish_time s + 1 / publish_rate s < time"

text \<open>
  The publishing block. \<open>acquire\<close> is what \<^verbatim>\<open>realtime_pub_->trylock()\<close> returns in
  this cycle: it depends on the publishing thread only.
\<close>

definition publish :: "bool \<Rightarrow> ros_time \<Rightarrow> controller \<Rightarrow> controller" where
  "publish acquire time s =
     (if publish_due time s then
        (if acquire then
           (let m = \<lparr>stamp = time, pose = x_pose s, odom_twist = GetTwist (x_dot s)\<rparr>
            in s\<lparr>last_publish_time := last_publish_time s + 1 / publish_rate s,
                 realtime_pub_msg := m,
                 realtime_pub_calls := realtime_pub_calls s @ [TryLock True, UnlockAndPublish m]\<rparr>)
         else s\<lparr>realtime_pub_calls := realtime_pub_calls s @ [TryLock False]\<rparr>)
      else s)"

definition update ::
  "kdl_solvers \<Rightarrow> bool \<Rightarrow> ros_time \<Rightarrow> ros_duration \<Rightarrow> controller \<Rightarrow> error + controller" where
  "update kdl acquire time period s =
     and_then (read_joints s) (\<lambda>s1.
     and_then (writeVelocityCommands period (solve_ik kdl s1)) (\<lambda>s2.
     Inr (publish acquire time (solve_fk kdl s2))))"

subsection \<open>command\_cart\_vel\<close>

text \<open>The callback stores the six components one after the other.\<close>

definition command_cart_vel :: "twist_msg \<Rightarrow> controller \<Rightarrow> controller" where
  "command_cart_vel msg s =
     (let s1 = s\<lparr>x_dt_des := (x_dt_des s)\<lparr>vel := (vel (x_dt_des s))\<lparr>data0 := msg_x (linear msg)\<rparr>\<rparr>\<rparr>;
          s2 = s1\<lparr>x_dt_des := (x_dt_des s1)\<lparr>vel := (vel (x_dt_des s1))\<lparr>data1 := msg_y (linear msg)\<rparr>\<rparr>\<rparr>;
          s3 = s2\<lparr>x_dt_des := (x_dt_des s2)\<lparr>vel := (vel (x_dt_des s2))\<lparr>data2 := msg_z (linear msg)\<rparr>\<rparr>\<rparr>;
          s4 = s3\<lparr>x_dt_des := (x_dt_des s3)\<lparr>rot := (rot (x_dt_des s3))\<lparr>data0 := msg_x (angular msg)\<rparr>\<rparr>\<rparr>;
          s5 = s4\<lparr>x_dt_des := (x_dt_des s4)\<lparr>rot := (rot (x_dt_des s4))\<lparr>data1 := msg_y (angular msg)\<rparr>\<rparr>\<rparr>
      in s5\<lparr>x_dt_des := (x_dt_des s5)\<lparr>rot := (rot (x_dt_des s5))\<lparr>data2 := msg_z (angular msg)\<rparr>\<rparr>\<rparr>)"

subsection \<open>init\<close>

text \<open>
  \<^verbatim>\<open>KDL::JntArray::resize\<close>: the entries kept are unchanged, the new ones are zero.
\<close>

definition resize :: "nat \<Rightarrow> real list \<Rightarrow> real list" where
  "resize n xs = take n xs @ replicate (n - length xs) 0"

text \<open>The message of a freshly constructed publisher: every number is zero.\<close>

definition Odometry_fresh :: odometry where
  "Odometry_fresh =
     \<lparr>stamp = 0, pose = \<lparr>frame_p = Vector_Zero, frame_M = replicate 9 0\<rparr>,
      odom_twist = Twist_Zero\<rparr>"

text \<open>
  \<open>init\<close> returns the \<^verbatim>\<open>bool\<close> of the source and the object as it leaves it. The
  node handle \<open>n\<close> is the parameter lookup: \<open>n key = None\<close> where
  \<^verbatim>\<open>getParam\<close> returns false. \<open>base_init\<close> is
  \<^verbatim>\<open>KinematicChainControllerBase<T>::init\<close>, which is not in this file: it is a
  parameter, and its returned \<^verbatim>\<open>bool\<close> is dropped as the source drops it. The
  construction of the solvers has no counterpart in the state (the solvers are the
  parameter \<open>kdl\<close> of \<open>update\<close>), nor has the subscription. The statements
  \<^verbatim>\<open>x_.p.Zero()\<close>, \<^verbatim>\<open>x_.M.Identity()\<close>, \<^verbatim>\<open>x_dot_.p.Zero()\<close> and
  \<^verbatim>\<open>x_dot_.M.Identity()\<close> call static functions and drop the value: they change
  nothing.
\<close>

definition init ::
  "('robot \<Rightarrow> (string \<rightharpoonup> real) \<Rightarrow> controller \<Rightarrow> bool \<times> controller) \<Rightarrow>
   'robot \<Rightarrow> (string \<rightharpoonup> real) \<Rightarrow> controller \<Rightarrow> bool \<times> controller" where
  "init base_init robot n s =
     (let s1 = snd (base_init robot n s) in
      case n ''publish_rate'' of
        None \<Rightarrow> (False, s1)
      | Some r \<Rightarrow>
          (True,
           s1\<lparr>publish_rate := r,
              realtime_pub_msg := Odometry_fresh,
              realtime_pub_calls := [],
              joint_msr_q := resize (kdl_chain_joints s1) (joint_msr_q s1),
              joint_msr_qdot := resize (kdl_chain_joints s1) (joint_msr_qdot s1),
              q_dt_cmd := resize (kdl_chain_joints s1) (q_dt_cmd s1),
              x_dt_des := Twist_Zero\<rparr>))"

subsection \<open>The host runtime\<close>

text \<open>
  The controller manager calls the hooks; between its calls the hardware interface
  refreshes the sensed position and velocity of each joint, and the subscriber delivers
  command messages. \<open>HardwareRead\<close> carries the new (position, velocity) readings by
  joint index.
\<close>

datatype call =
    CallStarting ros_time
  | CallUpdate bool ros_time ros_duration
  | CallCommand twist_msg
  | HardwareRead "(real \<times> real) list"

definition hardware_read :: "(real \<times> real) list \<Rightarrow> controller \<Rightarrow> controller" where
  "hardware_read rs s =
     s\<lparr>joint_handles :=
         map (\<lambda>i. if i < length rs
                   then (joint_handles s ! i)\<lparr>position := fst (rs ! i), velocity := snd (rs ! i)\<rparr>
                   else joint_handles s ! i)
             [0..<length (joint_handles s)]\<rparr>"

fun step :: "kdl_solvers \<Rightarrow> call \<Rightarrow> controller \<Rightarrow> error + controller" where
  "step kdl (CallStarting time) s = starting time s"
| "step kdl (CallUpdate acquire time period) s = update kdl acquire time period s"
| "step kdl (CallCommand msg) s = Inr (command_cart_vel msg s)"
| "step kdl (HardwareRead rs) s = Inr (hardware_read rs s)"

fun run :: "kdl_solvers \<Rightarrow> call list \<Rightarrow> controller \<Rightarrow> error + controller" where
  "run kdl [] s = Inr s"
| "run kdl (c # cs) s = and_then (step kdl c s) (run kdl cs)"

subsection \<open>Notions used by the statements\<close>

text \<open>
  The buffers have one entry per joint handle: the sizes \<open>init\<close> gives them when the
  chain has as many joints as the hardware interface has handles.
\<close>

definition sized :: "controller \<Rightarrow> bool" where
  "sized s \<longleftrightarrow>
     length (joint_msr_q s) = length (joint_handles s) \<and>
     length (joint_msr_qdot s) = length (joint_handles s) \<and>
     length (q_dt_cmd s) = length (joint_handles s)"

text \<open>The solver writes its output argument in place: it does not change its size.\<close>

definition keeps_size :: "kdl_solvers \<Rightarrow> bool" where
  "keeps_size kdl \<longleftrightarrow> (\<forall>q tw old. length (snd (CartToJnt kdl q tw old)) = length old)"




text \<open>The state of the loops after \<open>n\<close> rounds, in closed form.\<close>

definition read_upto :: "nat \<Rightarrow> controller \<Rightarrow> controller" where
  "read_upto n s =
     s\<lparr>joint_msr_q :=
         map (\<lambda>i. if i < n then getPosition (joint_handles s ! i) else joint_msr_q s ! i)
             [0..<length (joint_msr_q s)],
       joint_msr_qdot :=
         map (\<lambda>i. if i < n then getVelocity (joint_handles s ! i) else joint_msr_qdot s ! i)
             [0..<length (joint_msr_qdot s)]\<rparr>"

definition written_upto :: "(nat \<Rightarrow> real) \<Rightarrow> nat \<Rightarrow> controller \<Rightarrow> controller" where
  "written_upto c n s =
     s\<lparr>joint_handles :=
         map (\<lambda>i. if i < n then setCommand (c i) (joint_handles s ! i) else joint_handles s ! i)
             [0..<length (joint_handles s)]\<rparr>"

text \<open>What \<^verbatim>\<open>writeVelocityCommands\<close> hands to \<^verbatim>\<open>setCommand\<close> for joint \<open>i\<close>.\<close>

definition cycle_command :: "ros_duration \<Rightarrow> controller \<Rightarrow> nat \<Rightarrow> real" where
  "cycle_command period s i =
     (case writer s of
        PID \<Rightarrow> q_dt_cmd s ! i
      | PIDSim \<Rightarrow> joint_msr_q s ! i + q_dt_cmd s ! i * period)"

text \<open>The state of a cycle after the joints are read and the inverse solver has run.\<close>

definition solved :: "kdl_solvers \<Rightarrow> controller \<Rightarrow> controller" where
  "solved kdl s = solve_ik kdl (read_upto (length (joint_handles s)) s)"

text \<open>
  The property the inverse solver is expected to have at the zero twist: whatever the
  joint positions and the previous content of the output, it writes zero to every entry.
  It is a property of the KDL solver, which \<open>update\<close> only calls.
\<close>

definition zero_at_zero_twist :: "kdl_solvers \<Rightarrow> bool" where
  "zero_at_zero_twist kdl \<longleftrightarrow>
     (\<forall>q old. snd (CartToJnt kdl q Twist_Zero old) = replicate (length old) 0)"

fun is_command :: "call \<Rightarrow> bool" where
  "is_command (CallCommand msg) = True"
| "is_command c = False"

fun is_cycle :: "call \<Rightarrow> bool" where
  "is_cycle (CallUpdate acquire time period) = True"
| "is_cycle (HardwareRead rs) = True"
| "is_cycle c = False"

text \<open>The twist a command message carries.\<close>

definition twist_of_msg :: "twist_msg \<Rightarrow> twist" where
  "twist_of_msg msg =
     \<lparr>vel = \<lparr>data0 = msg_x (linear msg), data1 = msg_y (linear msg), data2 = msg_z (linear msg)\<rparr>,
      rot = \<lparr>data0 = msg_x (angular msg), data1 = msg_y (angular msg), data2 = msg_z (angular msg)\<rparr>\<rparr>"

text \<open>
  The controller at rest: buffers sized, the desired twist zero and the joint-velocity
  command zero in every entry.
\<close>

definition at_rest :: "controller \<Rightarrow> bool" where
  "at_rest s \<longleftrightarrow>
     sized s \<and> x_dt_des s = Twist_Zero
     \<and> q_dt_cmd s = replicate (length (joint_handles s)) 0"

subsection \<open>A concrete controller\<close>

text \<open>
  A controller with two joints and a toy solver, on which the statements below are
  evaluated. The toy inverse solver gives every joint the translational velocity along
  the first axis and always reports the status \<open>-1\<close>; the toy forward solvers put the
  sum of the joint positions, and of the joint velocities, in a component of their
  output.
\<close>

definition toy_kdl :: kdl_solvers where
  "toy_kdl =
     \<lparr>CartToJnt = (\<lambda>q tw old. (-1, map (\<lambda>_. data0 (vel tw)) old)),
      JntToCart_vel = (\<lambda>q qdot old.
         (0, old\<lparr>framevel_v := (framevel_v old)\<lparr>data0 := sum_list qdot\<rparr>\<rparr>)),
      JntToCart_pos = (\<lambda>q old. (0, old\<lparr>frame_p := (frame_p old)\<lparr>data0 := sum_list q\<rparr>\<rparr>))\<rparr>"

definition two_joints :: controller where
  "two_joints =
     \<lparr>writer = PID,
      kdl_chain_joints = 2,
      joint_handles = [\<lparr>position = 1, velocity = 0, command = 7\<rparr>,
                       \<lparr>position = 2, velocity = 1 / 2, command = 8\<rparr>],
      joint_msr_q = [9, 6],
      joint_msr_qdot = [0, 0],
      q_dt_cmd = [3, 4],
      x_dt_des = \<lparr>vel = \<lparr>data0 = 5, data1 = 0, data2 = 0\<rparr>, rot = Vector_Zero\<rparr>,
      x_pose = \<lparr>frame_p = Vector_Zero, frame_M = [1, 0, 0, 0, 1, 0, 0, 0, 1]\<rparr>,
      x_dot = \<lparr>framevel_p = Vector_Zero, framevel_v = Vector_Zero,
               framevel_R = [1, 0, 0, 0, 1, 0, 0, 0, 1], framevel_w = Vector_Zero\<rparr>,
      publish_rate = 2,
      last_publish_time = 10,
      realtime_pub_msg = Odometry_fresh,
      realtime_pub_calls = []\<rparr>"

section \<open>Properties\<close>

subsection \<open>Loops in closed form\<close>

lemma and_then_Inr [simp]: "and_then (Inr a) f = f a"
  by (simp add: and_then_def)

lemma and_then_Inl [simp]: "and_then (Inl e) f = Inl e"
  by (simp add: and_then_def)

lemma and_then_eq_Inr:
  "and_then r f = Inr b \<longleftrightarrow> (\<exists>a. r = Inr a \<and> f a = Inr b)"
  by (cases r) simp_all

lemma upd_map_upt:
  "(map (\<lambda>i. if i < n then f i else g i) [0..<L])[n := f n]
     = map (\<lambda>i. if i < Suc n then f i else g i) [0..<L]"
  by (rule nth_equalityI) (auto simp: nth_list_update less_Suc_eq)

lemma for_upto_starting_body:
  "for_upto n starting_body s =
     (if n \<le> length (q_dt_cmd s)
      then Inr (s\<lparr>q_dt_cmd := replicate n 0 @ drop n (q_dt_cmd s)\<rparr>)
      else Inl IndexOutOfRange)"
proof (induction n)
  case 0
  show ?case by simp
next
  case (Suc n)
  show ?case
  proof (cases "n < length (q_dt_cmd s)")
    case True
    then have "(replicate n 0 @ drop n (q_dt_cmd s))[n := 0]
                 = replicate (Suc n) 0 @ drop (Suc n) (q_dt_cmd s)"
      by (simp add: list_update_append replicate_append_same upd_conv_take_nth_drop
            flip: Cons_nth_drop_Suc)
    with True Suc show ?thesis
      by (simp add: starting_body_def)
  next
    case False
    with Suc show ?thesis
      by (auto simp: starting_body_def)
  qed
qed

lemma starting_eq:
  "starting time s =
     (if length (joint_handles s) \<le> length (q_dt_cmd s)
      then Inr (s\<lparr>q_dt_cmd := replicate (length (joint_handles s)) 0
                               @ drop (length (joint_handles s)) (q_dt_cmd s),
                 x_dt_des := Twist_Zero, last_publish_time := time\<rparr>)
      else Inl IndexOutOfRange)"
  by (simp add: starting_def for_upto_starting_body)

lemma read_upto_0: "read_upto 0 s = s"
  by (simp add: read_upto_def map_nth)

lemma for_upto_read_body:
  "n \<le> length (joint_handles s) \<Longrightarrow>
   for_upto n read_body s =
     (if n \<le> length (joint_msr_q s) \<and> n \<le> length (joint_msr_qdot s)
      then Inr (read_upto n s) else Inl IndexOutOfRange)"
proof (induction n)
  case 0
  show ?case by (simp add: read_upto_0)
next
  case (Suc n)
  show ?case
  proof (cases "n < length (joint_msr_q s) \<and> n < length (joint_msr_qdot s)")
    case True
    have "read_body n (read_upto n s) = Inr (read_upto (Suc n) s)"
      using True Suc.prems
      by (simp add: read_body_def read_upto_def
            upd_map_upt [where f = "\<lambda>i. getPosition (joint_handles s ! i)"]
            upd_map_upt [where f = "\<lambda>i. getVelocity (joint_handles s ! i)"])
    with True Suc show ?thesis by simp
  next
    case False
    with Suc show ?thesis
      by (auto simp: read_body_def read_upto_def)
  qed
qed

lemma read_joints_eq:
  "read_joints s =
     (if length (joint_handles s) \<le> length (joint_msr_q s)
         \<and> length (joint_handles s) \<le> length (joint_msr_qdot s)
      then Inr (read_upto (length (joint_handles s)) s) else Inl IndexOutOfRange)"
  by (simp add: read_joints_def for_upto_read_body)

lemma written_upto_0: "written_upto c 0 s = s"
  by (simp add: written_upto_def map_nth)

lemma for_upto_write_PID_body:
  "n \<le> length (joint_handles s) \<Longrightarrow>
   for_upto n write_PID_body s =
     (if n \<le> length (q_dt_cmd s)
      then Inr (written_upto (\<lambda>i. q_dt_cmd s ! i) n s) else Inl IndexOutOfRange)"
proof (induction n)
  case 0
  show ?case by (simp add: written_upto_0)
next
  case (Suc n)
  show ?case
  proof (cases "n < length (q_dt_cmd s)")
    case True
    have "write_PID_body n (written_upto (\<lambda>i. q_dt_cmd s ! i) n s)
            = Inr (written_upto (\<lambda>i. q_dt_cmd s ! i) (Suc n) s)"
      using True Suc.prems
      by (simp add: write_PID_body_def written_upto_def
            upd_map_upt [where f = "\<lambda>i. setCommand (q_dt_cmd s ! i) (joint_handles s ! i)"])
    with True Suc show ?thesis by simp
  next
    case False
    with Suc show ?thesis
      by (auto simp: write_PID_body_def written_upto_def)
  qed
qed

lemma for_upto_write_PIDSim_body:
  "n \<le> length (joint_handles s) \<Longrightarrow>
   for_upto n (write_PIDSim_body period) s =
     (if n \<le> length (joint_msr_q s) \<and> n \<le> length (q_dt_cmd s)
      then Inr (written_upto (\<lambda>i. joint_msr_q s ! i + q_dt_cmd s ! i * period) n s)
      else Inl IndexOutOfRange)"
proof (induction n)
  case 0
  show ?case by (simp add: written_upto_0)
next
  case (Suc n)
  show ?case
  proof (cases "n < length (joint_msr_q s) \<and> n < length (q_dt_cmd s)")
    case True
    have "write_PIDSim_body period n
            (written_upto (\<lambda>i. joint_msr_q s ! i + q_dt_cmd s ! i * period) n s)
            = Inr (written_upto (\<lambda>i. joint_msr_q s ! i + q_dt_cmd s ! i * period) (Suc n) s)"
      using True Suc.prems
      by (simp add: write_PIDSim_body_def written_upto_def
            upd_map_upt [where f = "\<lambda>i. setCommand (joint_msr_q s ! i + q_dt_cmd s ! i * period)
                                             (joint_handles s ! i)"])
    with True Suc show ?thesis by simp
  next
    case False
    with Suc show ?thesis
      by (auto simp: write_PIDSim_body_def written_upto_def)
  qed
qed

lemma writeVelocityCommands_PID_eq:
  "writeVelocityCommands_PID period s =
     (if length (joint_handles s) \<le> length (q_dt_cmd s)
      then Inr (written_upto (\<lambda>i. q_dt_cmd s ! i) (length (joint_handles s)) s)
      else Inl IndexOutOfRange)"
  by (simp add: writeVelocityCommands_PID_def for_upto_write_PID_body)

lemma writeVelocityCommands_PIDSim_eq:
  "writeVelocityCommands_PIDSim period s =
     (if length (joint_handles s) \<le> length (joint_msr_q s)
         \<and> length (joint_handles s) \<le> length (q_dt_cmd s)
      then Inr (written_upto (\<lambda>i. joint_msr_q s ! i + q_dt_cmd s ! i * period)
                  (length (joint_handles s)) s)
      else Inl IndexOutOfRange)"
  by (simp add: writeVelocityCommands_PIDSim_def for_upto_write_PIDSim_body)


lemma writeVelocityCommands_eq:
  "writeVelocityCommands period s =
     (if length (joint_handles s) \<le> length (q_dt_cmd s)
         \<and> (writer s = PIDSim \<longrightarrow> length (joint_handles s) \<le> length (joint_msr_q s))
      then Inr (written_upto (cycle_command period s) (length (joint_handles s)) s)
      else Inl IndexOutOfRange)"
proof (cases "writer s")
  case PID
  then have "cycle_command period s = (\<lambda>i. q_dt_cmd s ! i)"
    by (simp add: cycle_command_def fun_eq_iff)
  with PID show ?thesis
    by (simp add: writeVelocityCommands_def writeVelocityCommands_PID_eq)
next
  case PIDSim
  then have "cycle_command period s = (\<lambda>i. joint_msr_q s ! i + q_dt_cmd s ! i * period)"
    by (simp add: cycle_command_def fun_eq_iff)
  with PIDSim show ?thesis
    by (auto simp: writeVelocityCommands_def writeVelocityCommands_PIDSim_eq)
qed

lemma read_upto_fields [simp]:
  "writer (read_upto n s) = writer s"
  "kdl_chain_joints (read_upto n s) = kdl_chain_joints s"
  "joint_handles (read_upto n s) = joint_handles s"
  "q_dt_cmd (read_upto n s) = q_dt_cmd s"
  "x_dt_des (read_upto n s) = x_dt_des s"
  "x_pose (read_upto n s) = x_pose s"
  "x_dot (read_upto n s) = x_dot s"
  "publish_rate (read_upto n s) = publish_rate s"
  "last_publish_time (read_upto n s) = last_publish_time s"
  "realtime_pub_msg (read_upto n s) = realtime_pub_msg s"
  "realtime_pub_calls (read_upto n s) = realtime_pub_calls s"
  "length (joint_msr_q (read_upto n s)) = length (joint_msr_q s)"
  "length (joint_msr_qdot (read_upto n s)) = length (joint_msr_qdot s)"
  by (simp_all add: read_upto_def)

lemma written_upto_fields [simp]:
  "writer (written_upto c n s) = writer s"
  "kdl_chain_joints (written_upto c n s) = kdl_chain_joints s"
  "joint_msr_q (written_upto c n s) = joint_msr_q s"
  "joint_msr_qdot (written_upto c n s) = joint_msr_qdot s"
  "q_dt_cmd (written_upto c n s) = q_dt_cmd s"
  "x_dt_des (written_upto c n s) = x_dt_des s"
  "x_pose (written_upto c n s) = x_pose s"
  "x_dot (written_upto c n s) = x_dot s"
  "publish_rate (written_upto c n s) = publish_rate s"
  "last_publish_time (written_upto c n s) = last_publish_time s"
  "realtime_pub_msg (written_upto c n s) = realtime_pub_msg s"
  "realtime_pub_calls (written_upto c n s) = realtime_pub_calls s"
  "length (joint_handles (written_upto c n s)) = length (joint_handles s)"
  by (simp_all add: written_upto_def)

lemma solve_ik_fields [simp]:
  "writer (solve_ik kdl s) = writer s"
  "kdl_chain_joints (solve_ik kdl s) = kdl_chain_joints s"
  "joint_handles (solve_ik kdl s) = joint_handles s"
  "joint_msr_q (solve_ik kdl s) = joint_msr_q s"
  "joint_msr_qdot (solve_ik kdl s) = joint_msr_qdot s"
  "x_dt_des (solve_ik kdl s) = x_dt_des s"
  "x_pose (solve_ik kdl s) = x_pose s"
  "x_dot (solve_ik kdl s) = x_dot s"
  "publish_rate (solve_ik kdl s) = publish_rate s"
  "last_publish_time (solve_ik kdl s) = last_publish_time s"
  "realtime_pub_msg (solve_ik kdl s) = realtime_pub_msg s"
  "realtime_pub_calls (solve_ik kdl s) = realtime_pub_calls s"
  by (simp_all add: solve_ik_def)

lemma solve_fk_fields [simp]:
  "writer (solve_fk kdl s) = writer s"
  "kdl_chain_joints (solve_fk kdl s) = kdl_chain_joints s"
  "joint_handles (solve_fk kdl s) = joint_handles s"
  "joint_msr_q (solve_fk kdl s) = joint_msr_q s"
  "joint_msr_qdot (solve_fk kdl s) = joint_msr_qdot s"
  "q_dt_cmd (solve_fk kdl s) = q_dt_cmd s"
  "x_dt_des (solve_fk kdl s) = x_dt_des s"
  "publish_rate (solve_fk kdl s) = publish_rate s"
  "last_publish_time (solve_fk kdl s) = last_publish_time s"
  "realtime_pub_msg (solve_fk kdl s) = realtime_pub_msg s"
  "realtime_pub_calls (solve_fk kdl s) = realtime_pub_calls s"
  by (simp_all add: solve_fk_def Let_def)

lemma publish_fields [simp]:
  "writer (publish a t s) = writer s"
  "kdl_chain_joints (publish a t s) = kdl_chain_joints s"
  "joint_handles (publish a t s) = joint_handles s"
  "joint_msr_q (publish a t s) = joint_msr_q s"
  "joint_msr_qdot (publish a t s) = joint_msr_qdot s"
  "q_dt_cmd (publish a t s) = q_dt_cmd s"
  "x_dt_des (publish a t s) = x_dt_des s"
  "x_pose (publish a t s) = x_pose s"
  "x_dot (publish a t s) = x_dot s"
  "publish_rate (publish a t s) = publish_rate s"
  by (simp_all add: publish_def Let_def)

lemma solved_fields [simp]:
  "writer (solved kdl s) = writer s"
  "kdl_chain_joints (solved kdl s) = kdl_chain_joints s"
  "joint_handles (solved kdl s) = joint_handles s"
  "x_dt_des (solved kdl s) = x_dt_des s"
  "x_pose (solved kdl s) = x_pose s"
  "x_dot (solved kdl s) = x_dot s"
  "publish_rate (solved kdl s) = publish_rate s"
  "last_publish_time (solved kdl s) = last_publish_time s"
  "realtime_pub_msg (solved kdl s) = realtime_pub_msg s"
  "realtime_pub_calls (solved kdl s) = realtime_pub_calls s"
  "length (joint_msr_q (solved kdl s)) = length (joint_msr_q s)"
  "length (joint_msr_qdot (solved kdl s)) = length (joint_msr_qdot s)"
  by (simp_all add: solved_def)

lemma update_eq:
  "update kdl acquire time period s =
     (if length (joint_handles s) \<le> length (joint_msr_q s)
         \<and> length (joint_handles s) \<le> length (joint_msr_qdot s)
         \<and> length (joint_handles s) \<le> length (q_dt_cmd (solved kdl s))
      then Inr (publish acquire time (solve_fk kdl
             (written_upto (cycle_command period (solved kdl s)) (length (joint_handles s))
                (solved kdl s))))
      else Inl IndexOutOfRange)"
  by (simp add: update_def read_joints_eq writeVelocityCommands_eq solved_def)

subsection \<open>What a completed cycle leaves\<close>

lemma written_upto_command:
  "i < length (joint_handles s) \<Longrightarrow>
   command (joint_handles (written_upto c n s) ! i)
     = (if i < n then c i else command (joint_handles s ! i))"
  by (simp add: written_upto_def setCommand_def)

lemma update_InrD:
  "update kdl acquire time period s = Inr s' \<Longrightarrow>
   s' = publish acquire time (solve_fk kdl
          (written_upto (cycle_command period (solved kdl s)) (length (joint_handles s))
             (solved kdl s)))"
  by (simp add: update_eq split: if_split_asm)

lemma update_q_dt_cmd:
  "update kdl acquire time period s = Inr s' \<Longrightarrow>
   q_dt_cmd s' = snd (CartToJnt kdl (joint_msr_q s') (x_dt_des s) (q_dt_cmd s))"
  by (drule update_InrD) (simp add: solved_def solve_ik_def)

lemma update_joint_msr_q:
  "update kdl acquire time period s = Inr s' \<Longrightarrow>
   joint_msr_q s' = joint_msr_q (read_upto (length (joint_handles s)) s)"
  by (drule update_InrD) (simp add: solved_def)

lemma update_command:
  "update kdl acquire time period s = Inr s' \<Longrightarrow> i < length (joint_handles s) \<Longrightarrow>
   command (joint_handles s' ! i) = cycle_command period (solved kdl s) i"
  by (drule update_InrD) (simp add: written_upto_command)

lemma update_x_dt_des:
  "update kdl acquire time period s = Inr s' \<Longrightarrow> x_dt_des s' = x_dt_des s"
  by (drule update_InrD) simp

subsection \<open>Sizes are kept\<close>

lemma starting_Inr:
  "length (q_dt_cmd s) = length (joint_handles s) \<Longrightarrow>
   starting time s =
     Inr (s\<lparr>q_dt_cmd := replicate (length (joint_handles s)) 0,
            x_dt_des := Twist_Zero, last_publish_time := time\<rparr>)"
  by (simp add: starting_eq)

lemma sized_starting:
  "sized s \<Longrightarrow> \<exists>s'. starting time s = Inr s' \<and> sized s'"
  by (simp add: starting_Inr sized_def)

lemma update_Inr:
  "sized s \<Longrightarrow> keeps_size kdl \<Longrightarrow>
   update kdl acquire time period s =
     Inr (publish acquire time (solve_fk kdl
            (written_upto (cycle_command period (solved kdl s)) (length (joint_handles s))
               (solved kdl s))))"
  by (simp add: update_eq sized_def keeps_size_def solved_def solve_ik_def)

lemma q_dt_cmd_solved:
  "q_dt_cmd (solved kdl s) =
     snd (CartToJnt kdl (joint_msr_q (read_upto (length (joint_handles s)) s))
            (x_dt_des s) (q_dt_cmd s))"
  by (simp add: solved_def solve_ik_def)

lemma length_q_dt_cmd_solved:
  "keeps_size kdl \<Longrightarrow> length (q_dt_cmd (solved kdl s)) = length (q_dt_cmd s)"
  by (simp add: q_dt_cmd_solved keeps_size_def)

lemma sized_update:
  "sized s \<Longrightarrow> keeps_size kdl \<Longrightarrow>
   \<exists>s'. update kdl acquire time period s = Inr s' \<and> sized s'"
  by (simp add: update_Inr) (simp add: sized_def length_q_dt_cmd_solved)

lemma command_cart_vel_eq:
  "command_cart_vel msg s = s\<lparr>x_dt_des := twist_of_msg msg\<rparr>"
  by (simp add: command_cart_vel_def twist_of_msg_def Let_def)

lemma sized_command_cart_vel: "sized s \<Longrightarrow> sized (command_cart_vel msg s)"
  by (simp add: command_cart_vel_eq sized_def)

lemma sized_hardware_read: "sized s \<Longrightarrow> sized (hardware_read rs s)"
  by (simp add: hardware_read_def sized_def)

lemma sized_step:
  "sized s \<Longrightarrow> keeps_size kdl \<Longrightarrow> \<exists>s'. step kdl c s = Inr s' \<and> sized s'"
  by (cases c)
     (simp_all add: sized_starting sized_update sized_command_cart_vel sized_hardware_read)

lemma sized_run:
  "sized s \<Longrightarrow> keeps_size kdl \<Longrightarrow> \<exists>s'. run kdl cs s = Inr s' \<and> sized s'"
proof (induction cs arbitrary: s)
  case Nil
  then show ?case by simp
next
  case (Cons c cs)
  from sized_step [OF Cons.prems] obtain s1 where "step kdl c s = Inr s1" "sized s1"
    by blast
  with Cons.IH [OF \<open>sized s1\<close> Cons.prems(2)] show ?case by simp
qed

lemma step_length_handles:
  "step kdl c s = Inr s' \<Longrightarrow> length (joint_handles s') = length (joint_handles s)"
  by (cases c)
     (auto simp: starting_eq update_eq command_cart_vel_eq hardware_read_def
           split: if_splits)

lemma run_length_handles:
  "run kdl cs s = Inr s' \<Longrightarrow> length (joint_handles s') = length (joint_handles s)"
proof (induction cs arbitrary: s)
  case Nil
  then show ?case by simp
next
  case (Cons c cs)
  from Cons.prems obtain s1 where "step kdl c s = Inr s1" "run kdl cs s1 = Inr s'"
    by (auto simp: and_then_eq_Inr)
  with Cons.IH [of s1] step_length_handles [of kdl c s s1] show ?case by simp
qed

subsection \<open>The command writers\<close>



subsection \<open>Start\<close>

lemma at_rest_starting:
  "sized s \<Longrightarrow> \<exists>s'. starting time s = Inr s' \<and> at_rest s'"
  by (simp add: starting_Inr sized_def at_rest_def)

lemma at_rest_solved:
  "at_rest s \<Longrightarrow> zero_at_zero_twist kdl \<Longrightarrow>
   q_dt_cmd (solved kdl s) = replicate (length (joint_handles s)) 0"
  by (simp add: q_dt_cmd_solved at_rest_def zero_at_zero_twist_def)

lemma at_rest_update_eq:
  assumes "at_rest s" and "zero_at_zero_twist kdl"
  shows "update kdl acquire time period s =
     Inr (publish acquire time (solve_fk kdl
            (written_upto (cycle_command period (solved kdl s)) (length (joint_handles s))
               (solved kdl s))))"
  using assms(1) by (simp add: update_eq at_rest_solved [OF assms]) (simp add: at_rest_def sized_def)

lemma at_rest_update:
  assumes "at_rest s" and "zero_at_zero_twist kdl"
  shows "\<exists>s'. update kdl acquire time period s = Inr s' \<and> at_rest s'"
  using assms(1)
  by (simp add: at_rest_update_eq [OF assms])
     (simp add: at_rest_def sized_def at_rest_solved [OF assms])

lemma at_rest_hardware_read: "at_rest s \<Longrightarrow> at_rest (hardware_read rs s)"
  by (simp add: hardware_read_def at_rest_def sized_def)

lemma at_rest_step:
  "at_rest s \<Longrightarrow> zero_at_zero_twist kdl \<Longrightarrow> \<not> is_command c \<Longrightarrow>
   \<exists>s'. step kdl c s = Inr s' \<and> at_rest s'"
proof (cases c)
  case (CallStarting time)
  assume "at_rest s"
  then have "sized s" by (simp add: at_rest_def)
  with CallStarting show ?thesis by (simp add: at_rest_starting)
qed (simp_all add: at_rest_update at_rest_hardware_read)

lemma at_rest_run:
  "at_rest s \<Longrightarrow> zero_at_zero_twist kdl \<Longrightarrow> \<forall>c\<in>set cs. \<not> is_command c \<Longrightarrow>
   \<exists>s'. run kdl cs s = Inr s' \<and> at_rest s'"
proof (induction cs arbitrary: s)
  case Nil
  then show ?case by simp
next
  case (Cons c cs)
  from Cons.prems have "\<not> is_command c" by simp
  from at_rest_step [OF Cons.prems(1,2) this]
  obtain s1 where s1: "step kdl c s = Inr s1" "at_rest s1" by blast
  from Cons.prems(3) have "\<forall>c\<in>set cs. \<not> is_command c" by simp
  from Cons.IH [OF s1(2) Cons.prems(2) this] s1(1) show ?case by simp
qed

lemma joint_msr_q_solved:
  "i < length (joint_handles s) \<Longrightarrow> i < length (joint_msr_q s) \<Longrightarrow>
   joint_msr_q (solved kdl s) ! i = position (joint_handles s ! i)"
  by (simp add: solved_def read_upto_def getPosition_def)

lemma command_after_update_at_rest:
  assumes "at_rest s" and "zero_at_zero_twist kdl" and "i < length (joint_handles s)"
  shows "\<exists>s'. update kdl acquire time period s = Inr s'
           \<and> command (joint_handles s' ! i)
               = (case writer s of PID \<Rightarrow> 0 | PIDSim \<Rightarrow> position (joint_handles s ! i))"
proof -
  from assms(1,3) have "i < length (joint_msr_q s)"
    by (simp add: at_rest_def sized_def)
  with assms(3) show ?thesis
    by (simp add: at_rest_update_eq [OF assms(1,2)] written_upto_command cycle_command_def
          at_rest_solved [OF assms(1,2)] joint_msr_q_solved split: variant.split)
qed

text \<open>
  Claim C3. On a controller whose buffers are sized, \<open>starting\<close> at time \<open>t\<close>
  completes and leaves every entry of \<open>q_dt_cmd\<close> zero, the desired twist zero
  whatever it was before, and \<open>last_publish_time = t\<close>. When the inverse solver
  returns zero at the zero twist, every later sequence of calls without a command
  message (cycles, hardware reads, further starts) completes with \<open>q_dt_cmd\<close> zero in
  every entry and the desired twist still zero; and the cycle right after the start
  hands to each joint the command 0 (direct-velocity writer) or the joint's sensed
  position (integrated-position writer). Whatever the solver is, the cycle right after
  the start calls it with the zero twist and a zeroed output buffer.
\<close>

theorem starting_resets:
  assumes "sized s"
  shows "\<exists>s'. starting t s = Inr s'
           \<and> q_dt_cmd s' = replicate (length (q_dt_cmd s)) 0
           \<and> x_dt_des s' = Twist_Zero
           \<and> last_publish_time s' = t
           \<and> (\<forall>s''. update kdl acquire t' period s' = Inr s'' \<longrightarrow>
                  q_dt_cmd s'' = snd (CartToJnt kdl (joint_msr_q s'') Twist_Zero
                                        (replicate (length (q_dt_cmd s)) 0)))
           \<and> (zero_at_zero_twist kdl \<longrightarrow>
                (\<forall>cs. (\<forall>c\<in>set cs. \<not> is_command c) \<longrightarrow>
                   (\<exists>s''. run kdl cs s' = Inr s''
                      \<and> q_dt_cmd s'' = replicate (length (q_dt_cmd s)) 0
                      \<and> x_dt_des s'' = Twist_Zero))
              \<and> (\<forall>i<length (joint_handles s).
                   \<exists>s''. update kdl acquire t' period s' = Inr s''
                      \<and> command (joint_handles s'' ! i)
                          = (case writer s of PID \<Rightarrow> 0
                             | PIDSim \<Rightarrow> position (joint_handles s ! i))))"
proof -
  let ?s' = "s\<lparr>q_dt_cmd := replicate (length (joint_handles s)) 0,
               x_dt_des := Twist_Zero, last_publish_time := t\<rparr>"
  from assms have len: "length (q_dt_cmd s) = length (joint_handles s)"
    by (simp add: sized_def)
  then have st: "starting t s = Inr ?s'"
    by (rule starting_Inr)
  from assms have rest: "at_rest ?s'"
    by (simp add: at_rest_def sized_def)
  have later: "\<exists>s''. run kdl cs ?s' = Inr s''
                 \<and> q_dt_cmd s'' = replicate (length (q_dt_cmd s)) 0
                 \<and> x_dt_des s'' = Twist_Zero"
    if z: "zero_at_zero_twist kdl" and cs: "\<forall>c\<in>set cs. \<not> is_command c" for cs
  proof -
    from at_rest_run [OF rest z cs] obtain s'' where
      r: "run kdl cs ?s' = Inr s''" and a: "at_rest s''" by blast
    from run_length_handles [OF r] have "length (joint_handles s'') = length (joint_handles s)"
      by simp
    with a len r show ?thesis by (simp add: at_rest_def)
  qed
  have next_cycle: "\<exists>s''. update kdl acquire t' period ?s' = Inr s''
                      \<and> command (joint_handles s'' ! i)
                          = (case writer s of PID \<Rightarrow> 0
                             | PIDSim \<Rightarrow> position (joint_handles s ! i))"
    if z: "zero_at_zero_twist kdl" and i: "i < length (joint_handles s)" for i
    using command_after_update_at_rest [OF rest z, of i acquire t' period] i
    by (simp split: variant.split_asm variant.split)
  have solver_call: "q_dt_cmd s'' = snd (CartToJnt kdl (joint_msr_q s'') Twist_Zero
                                          (replicate (length (q_dt_cmd s)) 0))"
    if "update kdl acquire t' period ?s' = Inr s''" for s''
    using update_q_dt_cmd [OF that] len by simp
  from st len later next_cycle solver_call show ?thesis by simp
qed


theorem starting_resets_witness:
  "sized two_joints \<and> zero_at_zero_twist toy_kdl \<and> x_dt_des two_joints \<noteq> Twist_Zero
   \<and> (\<exists>s'. starting 10 two_joints = Inr s'
         \<and> q_dt_cmd s' = [0, 0]
         \<and> x_dt_des s' = Twist_Zero
         \<and> last_publish_time s' = 10
         \<and> (\<exists>s''. run toy_kdl [HardwareRead [(3 / 2, 1), (5 / 2, 1)],
                                 CallUpdate True 11 (1 / 100)] s' = Inr s''
                \<and> q_dt_cmd s'' = [0, 0] \<and> x_dt_des s'' = Twist_Zero)
         \<and> (\<exists>s''. update toy_kdl True 11 (1 / 100) s' = Inr s''
                \<and> command (joint_handles s'' ! 1) = 0))"
proof -
  have sz: "sized two_joints"
    by (simp add: sized_def two_joints_def)
  have z: "zero_at_zero_twist toy_kdl"
    by (simp add: zero_at_zero_twist_def toy_kdl_def Twist_Zero_def Vector_Zero_def
          map_replicate_const)
  have nz: "x_dt_des two_joints \<noteq> Twist_Zero"
    by (simp add: two_joints_def Twist_Zero_def Vector_Zero_def)
  have two: "replicate (length (q_dt_cmd two_joints)) (0::real) = [0, 0]"
       "(1::nat) < length (joint_handles two_joints)" "writer two_joints = PID"
    by (simp_all add: two_joints_def)
  have cs: "\<forall>c\<in>set [HardwareRead [(3 / 2, 1), (5 / 2, 1)], CallUpdate True 11 (1 / 100)].
              \<not> is_command c"
    by simp
  from starting_resets [OF sz, of 10 toy_kdl True 11 "1 / 100"] z two cs
  have "\<exists>s'. starting 10 two_joints = Inr s'
         \<and> q_dt_cmd s' = [0, 0]
         \<and> x_dt_des s' = Twist_Zero
         \<and> last_publish_time s' = 10
         \<and> (\<exists>s''. run toy_kdl [HardwareRead [(3 / 2, 1), (5 / 2, 1)],
                                 CallUpdate True 11 (1 / 100)] s' = Inr s''
                \<and> q_dt_cmd s'' = [0, 0] \<and> x_dt_des s'' = Twist_Zero)
         \<and> (\<exists>s''. update toy_kdl True 11 (1 / 100) s' = Inr s''
                \<and> command (joint_handles s'' ! 1) = 0)"
    by (metis (no_types, lifting) variant.simps(3))
  with sz z nz show ?thesis by blast
qed

subsection \<open>Rate-limited telemetry\<close>


lemma publish_due_cong:
  "publish_rate s' = publish_rate s \<Longrightarrow> last_publish_time s' = last_publish_time s \<Longrightarrow>
   publish_due time s' = publish_due time s"
  by (simp add: publish_due_def)

lemma publish_due_before_publish:
  "publish_due time (solve_fk kdl (written_upto c n (solved kdl s))) = publish_due time s"
  by (simp add: publish_due_def)





lemma sized_two_joints: "sized two_joints"
  by (simp add: sized_def two_joints_def)

lemma keeps_size_toy_kdl: "keeps_size toy_kdl"
  by (simp add: keeps_size_def toy_kdl_def)






lemma update_publish_rate:
  "update kdl acquire time period s = Inr s' \<Longrightarrow> publish_rate s' = publish_rate s"
  by (drule update_InrD) simp





lemma step_publish_rate:
  "step kdl c s = Inr s' \<Longrightarrow> publish_rate s' = publish_rate s"
  by (cases c)
     (auto simp: starting_eq update_publish_rate command_cart_vel_eq hardware_read_def
           split: if_splits)

lemma not_due_when_disabled: "publish_rate s \<le> 0 \<Longrightarrow> \<not> publish_due time s"
  by (simp add: publish_due_def)

lemma update_disabled:
  assumes "publish_rate s \<le> 0" and "update kdl acquire time period s = Inr s'"
  shows "realtime_pub_calls s' = realtime_pub_calls s \<and> realtime_pub_msg s' = realtime_pub_msg s"
proof -
  let ?m = "solve_fk kdl (written_upto (cycle_command period (solved kdl s))
              (length (joint_handles s)) (solved kdl s))"
  from assms(1) have "\<not> publish_due time ?m"
    by (simp add: publish_due_before_publish not_due_when_disabled)
  then have "publish acquire time ?m = ?m"
    by (simp add: publish_def)
  with update_InrD [OF assms(2)] show ?thesis by simp
qed

lemma step_disabled:
  "publish_rate s \<le> 0 \<Longrightarrow> step kdl c s = Inr s' \<Longrightarrow>
   realtime_pub_calls s' = realtime_pub_calls s \<and> realtime_pub_msg s' = realtime_pub_msg s"
  by (cases c)
     (auto simp: starting_eq update_disabled command_cart_vel_eq hardware_read_def
           split: if_splits)

lemma run_disabled:
  "publish_rate s \<le> 0 \<Longrightarrow> run kdl cs s = Inr s' \<Longrightarrow>
   realtime_pub_calls s' = realtime_pub_calls s \<and> realtime_pub_msg s' = realtime_pub_msg s
   \<and> publish_rate s' = publish_rate s"
proof (induction cs arbitrary: s)
  case Nil
  then show ?case by simp
next
  case (Cons c cs)
  from Cons.prems(2) obtain s1 where s1: "step kdl c s = Inr s1" "run kdl cs s1 = Inr s'"
    by (auto simp: and_then_eq_Inr)
  from step_publish_rate [OF s1(1)] Cons.prems(1) have "publish_rate s1 \<le> 0" by simp
  from Cons.IH [OF this s1(2)] step_disabled [OF Cons.prems(1) s1(1)]
       step_publish_rate [OF s1(1)]
  show ?case by simp
qed

text \<open>
  Claim C6. With \<open>publish_rate \<le> 0\<close>, no sequence of calls of the host runtime
  (starts, cycles at any times, command messages, hardware reads) makes any call on the
  publisher or changes its message, and \<open>publish_rate\<close> stays as it is; on a sized
  controller every such sequence completes.
\<close>

theorem telemetry_disabled:
  assumes "publish_rate s \<le> 0"
  shows "(\<forall>s'. run kdl cs s = Inr s' \<longrightarrow>
            realtime_pub_calls s' = realtime_pub_calls s
          \<and> realtime_pub_msg s' = realtime_pub_msg s
          \<and> publish_rate s' = publish_rate s)
       \<and> (sized s \<and> keeps_size kdl \<longrightarrow> (\<exists>s'. run kdl cs s = Inr s'))"
  using run_disabled [OF assms] sized_run [of s kdl cs] by blast

theorem telemetry_disabled_witness:
  "publish_rate (two_joints\<lparr>publish_rate := 0\<rparr>) \<le> 0
   \<and> sized (two_joints\<lparr>publish_rate := 0\<rparr>) \<and> keeps_size toy_kdl
   \<and> (\<exists>s'. run toy_kdl [CallStarting 10, CallUpdate True 1000 (1 / 100),
                          CallCommand \<lparr>linear = \<lparr>msg_x = 1, msg_y = 0, msg_z = 0\<rparr>,
                                       angular = \<lparr>msg_x = 0, msg_y = 0, msg_z = 0\<rparr>\<rparr>,
                          HardwareRead [(1, 1), (2, 2)],
                          CallUpdate True 2000 (1 / 100)]
               (two_joints\<lparr>publish_rate := 0\<rparr>) = Inr s'
          \<and> realtime_pub_calls s' = [])"
proof -
  let ?s = "two_joints\<lparr>publish_rate := 0\<rparr>"
  let ?cs = "[CallStarting 10, CallUpdate True 1000 (1 / 100),
              CallCommand \<lparr>linear = \<lparr>msg_x = 1, msg_y = 0, msg_z = 0\<rparr>,
                           angular = \<lparr>msg_x = 0, msg_y = 0, msg_z = 0\<rparr>\<rparr>,
              HardwareRead [(1, 1), (2, 2)],
              CallUpdate True 2000 (1 / 100)]"
  have r: "publish_rate ?s \<le> 0" by simp
  have sz: "sized ?s" using sized_two_joints by (simp add: sized_def)
  have c: "realtime_pub_calls ?s = []" by (simp add: two_joints_def)
  from telemetry_disabled [OF r, of toy_kdl ?cs] sz keeps_size_toy_kdl c
  have "\<exists>s'. run toy_kdl ?cs ?s = Inr s' \<and> realtime_pub_calls s' = []"
    by metis
  with r sz keeps_size_toy_kdl show ?thesis by blast
qed

subsection \<open>Initialisation\<close>

text \<open>
  Claim C7. If the parameter \<open>publish_rate\<close> is absent from the node handle, \<open>init\<close>
  returns false. If it is present, \<open>init\<close> returns true, whatever the base
  initialisation returned, and \<open>publish_rate\<close> holds the configured value: no failure
  is reported for the parameter. The hooks called later (\<open>starting\<close>, \<open>update\<close>,
  \<open>command_cart_vel\<close>) take no node handle: they cannot report the parameter missing.
\<close>

theorem init_publish_rate:
  "(n ''publish_rate'' = None \<longrightarrow> fst (init base_init robot n s) = False)
   \<and> (\<forall>r. n ''publish_rate'' = Some r \<longrightarrow>
          fst (init base_init robot n s) = True
        \<and> publish_rate (snd (init base_init robot n s)) = r)"
  by (simp add: init_def Let_def)

theorem init_publish_rate_witness:
  "fst (init (\<lambda>robot n s. (False, s\<lparr>kdl_chain_joints := 2, joint_handles := robot\<rparr>))
          (joint_handles two_joints) Map.empty two_joints) = False
   \<and> fst (init (\<lambda>robot n s. (False, s\<lparr>kdl_chain_joints := 2, joint_handles := robot\<rparr>))
          (joint_handles two_joints) [''publish_rate'' \<mapsto> 50] two_joints) = True
   \<and> publish_rate (snd (init (\<lambda>robot n s. (False, s\<lparr>kdl_chain_joints := 2, joint_handles := robot\<rparr>))
          (joint_handles two_joints) [''publish_rate'' \<mapsto> 50] two_joints)) = 50"
  using init_publish_rate [of Map.empty
          "\<lambda>robot n s. (False, s\<lparr>kdl_chain_joints := 2, joint_handles := robot\<rparr>)"
          "joint_handles two_joints" two_joints]
        init_publish_rate [of "[''publish_rate'' \<mapsto> 50]"
          "\<lambda>robot n s. (False, s\<lparr>kdl_chain_joints := 2, joint_handles := robot\<rparr>)"
          "joint_handles two_joints" two_joints]
  by simp

text \<open>
  When the base initialisation registers one handle per joint of the chain, a
  successful \<open>init\<close> leaves the buffers sized.
\<close>

lemma length_resize: "length (resize n xs) = n"
  by (simp add: resize_def)

lemma sized_init:
  assumes "n ''publish_rate'' = Some r"
      and "length (joint_handles (snd (base_init robot n s)))
             = kdl_chain_joints (snd (base_init robot n s))"
  shows "sized (snd (init base_init robot n s))"
  using assms by (simp add: init_def Let_def sized_def length_resize)

subsection \<open>The solver status\<close>

lemma read_upto_all:
  "length (joint_msr_q s) = length (joint_handles s) \<Longrightarrow>
   joint_msr_q (read_upto (length (joint_handles s)) s) = map position (joint_handles s)"
  by (rule nth_equalityI) (simp_all add: read_upto_def getPosition_def)

lemma update_status_free:
  "update (kdl\<lparr>CartToJnt := \<lambda>q tw old. (status q tw old, snd (CartToJnt kdl q tw old))\<rparr>)
      acquire time period s
   = update kdl acquire time period s"
  by (simp add: update_def solve_ik_def solve_fk_def)

text \<open>
  Claim C9. The cycle does not look at the status the inverse solver returns: replacing
  the status by any other, in every call, leaves the result of \<open>update\<close> unchanged.
  On a sized controller the cycle completes, \<open>q_dt_cmd\<close> is what the solver left in its
  output argument for the sensed positions and the desired twist, and every joint is
  handed the command computed from that output by the writer of the controller, also
  when the status is an error code.
\<close>

theorem solver_status_discarded:
  "update (kdl\<lparr>CartToJnt := \<lambda>q tw old. (status q tw old, snd (CartToJnt kdl q tw old))\<rparr>)
      acquire time period s
   = update kdl acquire time period s
   \<and> (sized s \<and> keeps_size kdl \<longrightarrow>
        (\<exists>s'. update kdl acquire time period s = Inr s'
           \<and> q_dt_cmd s' = snd (CartToJnt kdl (map position (joint_handles s))
                                   (x_dt_des s) (q_dt_cmd s))
           \<and> (\<forall>i<length (joint_handles s).
                 command (joint_handles s' ! i)
                   = (case writer s of
                        PID \<Rightarrow> q_dt_cmd s' ! i
                      | PIDSim \<Rightarrow> position (joint_handles s ! i) + q_dt_cmd s' ! i * period))))"
proof -
  have "\<exists>s'. update kdl acquire time period s = Inr s'
           \<and> q_dt_cmd s' = snd (CartToJnt kdl (map position (joint_handles s))
                                   (x_dt_des s) (q_dt_cmd s))
           \<and> (\<forall>i<length (joint_handles s).
                 command (joint_handles s' ! i)
                   = (case writer s of
                        PID \<Rightarrow> q_dt_cmd s' ! i
                      | PIDSim \<Rightarrow> position (joint_handles s ! i) + q_dt_cmd s' ! i * period))"
    if sz: "sized s" and ks: "keeps_size kdl"
  proof -
    from sized_update [OF sz ks] obtain s' where u: "update kdl acquire time period s = Inr s'"
      by blast
    from sz have len: "length (joint_msr_q s) = length (joint_handles s)"
      by (simp add: sized_def)
    have q: "joint_msr_q s' = map position (joint_handles s)"
      using update_joint_msr_q [OF u] read_upto_all [OF len] by simp
    have cmd: "q_dt_cmd s' = q_dt_cmd (solved kdl s)"
      using update_InrD [OF u] by simp
    have "command (joint_handles s' ! i)
            = (case writer s of
                 PID \<Rightarrow> q_dt_cmd s' ! i
               | PIDSim \<Rightarrow> position (joint_handles s ! i) + q_dt_cmd s' ! i * period)"
      if i: "i < length (joint_handles s)" for i
      using update_command [OF u i] i len
      by (simp add: cycle_command_def cmd joint_msr_q_solved split: variant.split)
    with u update_q_dt_cmd [OF u] q show ?thesis by simp
  qed
  with update_status_free show ?thesis by blast
qed


theorem solver_status_discarded_witness:
  "sized two_joints \<and> keeps_size toy_kdl
   \<and> fst (CartToJnt toy_kdl (map position (joint_handles two_joints))
            (x_dt_des two_joints) (q_dt_cmd two_joints)) < 0
   \<and> update (toy_kdl\<lparr>CartToJnt := \<lambda>q tw old. (0, snd (CartToJnt toy_kdl q tw old))\<rparr>)
        True 11 (1 / 100) two_joints
      = update toy_kdl True 11 (1 / 100) two_joints
   \<and> (\<exists>s'. update toy_kdl True 11 (1 / 100) two_joints = Inr s'
          \<and> q_dt_cmd s' = [5, 5]
          \<and> command (joint_handles s' ! 0) = 5
          \<and> command (joint_handles s' ! 1) = 5)"
proof -
  have err: "fst (CartToJnt toy_kdl (map position (joint_handles two_joints))
                    (x_dt_des two_joints) (q_dt_cmd two_joints)) < 0"
    by (simp add: toy_kdl_def)
  have out: "snd (CartToJnt toy_kdl (map position (joint_handles two_joints))
                    (x_dt_des two_joints) (q_dt_cmd two_joints)) = [5, 5]"
    by (simp add: toy_kdl_def two_joints_def)
  have w: "writer two_joints = PID" "length (joint_handles two_joints) = 2"
    by (simp_all add: two_joints_def)
  note inst = solver_status_discarded [where kdl = toy_kdl and status = "\<lambda>q tw old. 0"
      and acquire = True and time = 11 and period = "1 / 100" and s = two_joints]
  from inst have same: "update (toy_kdl\<lparr>CartToJnt := \<lambda>q tw old. (0, snd (CartToJnt toy_kdl q tw old))\<rparr>)
        True 11 (1 / 100) two_joints
      = update toy_kdl True 11 (1 / 100) two_joints"
    by blast
  from inst sized_two_joints keeps_size_toy_kdl obtain s' where
    s': "update toy_kdl True 11 (1 / 100) two_joints = Inr s'"
        "q_dt_cmd s' = [5, 5]"
        "\<forall>i<2. command (joint_handles s' ! i) = q_dt_cmd s' ! i"
    by (auto simp: out w)
  from s'(3) have "command (joint_handles s' ! 0) = q_dt_cmd s' ! 0"
      "command (joint_handles s' ! 1) = q_dt_cmd s' ! 1"
    by simp_all
  with s'(1,2) have "\<exists>s'. update toy_kdl True 11 (1 / 100) two_joints = Inr s'
          \<and> q_dt_cmd s' = [5, 5]
          \<and> command (joint_handles s' ! 0) = 5
          \<and> command (joint_handles s' ! 1) = 5"
    by simp
  with sized_two_joints keeps_size_toy_kdl err same show ?thesis by blast
qed

subsection \<open>The desired twist\<close>

lemma step_cycle_x_dt_des:
  "is_cycle c \<Longrightarrow> step kdl c s = Inr s' \<Longrightarrow> x_dt_des s' = x_dt_des s"
  by (cases c) (auto simp: update_x_dt_des hardware_read_def)

lemma run_cycles_x_dt_des:
  "\<forall>c\<in>set cs. is_cycle c \<Longrightarrow> run kdl cs s = Inr s' \<Longrightarrow> x_dt_des s' = x_dt_des s"
proof (induction cs arbitrary: s)
  case Nil
  then show ?case by simp
next
  case (Cons c cs)
  from Cons.prems(2) obtain s1 where s1: "step kdl c s = Inr s1" "run kdl cs s1 = Inr s'"
    by (auto simp: and_then_eq_Inr)
  from Cons.prems(1) have c: "is_cycle c" and cs: "\<forall>c\<in>set cs. is_cycle c"
    by simp_all
  from Cons.IH [OF cs s1(2)] step_cycle_x_dt_des [OF c s1(1)] show ?case by simp
qed

lemma starting_x_dt_des:
  "starting time s = Inr s' \<Longrightarrow> x_dt_des s' = Twist_Zero"
  by (auto simp: starting_eq split: if_splits)

text \<open>
  Claim C10. A cycle leaves the desired twist as it is and calls the inverse solver with
  it; the command callback sets it to the twist of the message and \<open>starting\<close> sets it
  to zero. Hence after a command message, every sequence of cycles and hardware reads
  ends with the desired twist equal to the twist of that message; on a sized controller
  every such sequence completes.
\<close>

theorem update_keeps_twist:
  "(\<forall>s'. update kdl acquire time period s = Inr s' \<longrightarrow>
       x_dt_des s' = x_dt_des s
     \<and> q_dt_cmd s' = snd (CartToJnt kdl (joint_msr_q s') (x_dt_des s) (q_dt_cmd s)))
   \<and> x_dt_des (command_cart_vel msg s) = twist_of_msg msg
   \<and> (\<forall>s'. starting time s = Inr s' \<longrightarrow> x_dt_des s' = Twist_Zero)
   \<and> ((\<forall>c\<in>set cs. is_cycle c) \<longrightarrow>
        (\<forall>s'. run kdl cs s = Inr s' \<longrightarrow> x_dt_des s' = x_dt_des s)
      \<and> (\<forall>s'. run kdl cs (command_cart_vel msg s) = Inr s' \<longrightarrow> x_dt_des s' = twist_of_msg msg)
      \<and> (sized s \<and> keeps_size kdl \<longrightarrow>
           (\<exists>s'. run kdl cs (command_cart_vel msg s) = Inr s')))"
proof -
  have latched: "x_dt_des s' = twist_of_msg msg"
    if "\<forall>c\<in>set cs. is_cycle c" and "run kdl cs (command_cart_vel msg s) = Inr s'" for s'
    using run_cycles_x_dt_des [OF that] by (simp add: command_cart_vel_eq)
  have total: "\<exists>s'. run kdl cs (command_cart_vel msg s) = Inr s'"
    if "sized s" and "keeps_size kdl"
    using sized_run [OF sized_command_cart_vel [OF that(1)] that(2)] by blast
  show ?thesis
    using update_x_dt_des update_q_dt_cmd starting_x_dt_des run_cycles_x_dt_des latched total
    by (simp add: command_cart_vel_eq)
qed


theorem update_keeps_twist_witness:
  "list_all is_cycle [CallUpdate True 11 (1 / 100), HardwareRead [(3, 1), (4, 1)],
                      CallUpdate False 12 (1 / 100)]
   \<and> sized two_joints \<and> keeps_size toy_kdl
   \<and> (\<exists>s'. run toy_kdl [CallUpdate True 11 (1 / 100), HardwareRead [(3, 1), (4, 1)],
                          CallUpdate False 12 (1 / 100)]
               (command_cart_vel \<lparr>linear = \<lparr>msg_x = 1, msg_y = 2, msg_z = 3\<rparr>,
                                  angular = \<lparr>msg_x = 4, msg_y = 5, msg_z = 6\<rparr>\<rparr> two_joints)
             = Inr s'
          \<and> x_dt_des s' = \<lparr>vel = \<lparr>data0 = 1, data1 = 2, data2 = 3\<rparr>,
                            rot = \<lparr>data0 = 4, data1 = 5, data2 = 6\<rparr>\<rparr>)"
proof -
  let ?cs = "[CallUpdate True 11 (1 / 100), HardwareRead [(3, 1), (4, 1)],
              CallUpdate False 12 (1 / 100)]"
  let ?msg = "\<lparr>linear = \<lparr>msg_x = 1, msg_y = 2, msg_z = 3\<rparr>,
               angular = \<lparr>msg_x = 4, msg_y = 5, msg_z = 6\<rparr>\<rparr>"
  have cyc: "\<forall>c\<in>set ?cs. is_cycle c"
    by simp
  have tw: "twist_of_msg ?msg = \<lparr>vel = \<lparr>data0 = 1, data1 = 2, data2 = 3\<rparr>,
                                 rot = \<lparr>data0 = 4, data1 = 5, data2 = 6\<rparr>\<rparr>"
    by (simp add: twist_of_msg_def)
  from update_keeps_twist [where kdl = toy_kdl and s = two_joints and msg = ?msg and cs = ?cs]
       cyc sized_two_joints keeps_size_toy_kdl
  have "\<exists>s'. run toy_kdl ?cs (command_cart_vel ?msg two_joints) = Inr s'
          \<and> x_dt_des s' = twist_of_msg ?msg"
    by blast
  moreover have "list_all is_cycle ?cs"
    by simp
  ultimately show ?thesis
    using sized_two_joints keeps_size_toy_kdl unfolding tw by blast
qed

end
